theory Spec2Isabelle
  imports Main
begin

section \<open>Data model of \<open>src/server.ts\<close>\<close>

text \<open>
  \<^verbatim>\<open>type Player = "X" | "O"\<close>, \<^verbatim>\<open>type played = Player | null\<close> and
  \<^verbatim>\<open>type GameMode = "player-vs-ai" | "ai-vs-ai"\<close>. A cell holding \<^verbatim>\<open>null\<close> is \<open>None\<close>.
\<close>

text \<open>The marks are written \<open>PlayerX\<close> and \<open>PlayerO\<close>: \<open>O\<close> is taken in HOL.\<close>

datatype Player = PlayerX | PlayerO

type_synonym played = "Player option"

datatype GameMode = PlayerVsAi | AiVsAi

text \<open>
  The board is a tuple of three rows, each a tuple of three cells, as the type
  \<^verbatim>\<open>[[played, played, played], [played, played, played], [played, played, played]]\<close> says.
\<close>

type_synonym 'a triple = "'a \<times> 'a \<times> 'a"

type_synonym Board = "played triple triple"

record TicTacToeState =
  board :: Board
  currentPlayer :: Player
  winner :: "Player option"
  mode :: GameMode
  isAiThinking :: bool

text \<open>The three positions of a three-element array.\<close>

datatype idx = I0 | I1 | I2

fun nth3 :: "'a triple \<Rightarrow> idx \<Rightarrow> 'a" where
  "nth3 (a, b, c) I0 = a"
| "nth3 (a, b, c) I1 = b"
| "nth3 (a, b, c) I2 = c"

fun upd3 :: "'a triple \<Rightarrow> idx \<Rightarrow> 'a \<Rightarrow> 'a triple" where
  "upd3 (a, b, c) I0 v = (v, b, c)"
| "upd3 (a, b, c) I1 v = (a, v, c)"
| "upd3 (a, b, c) I2 v = (a, b, v)"

text \<open>\<^verbatim>\<open>board[i][j]\<close> for positions that exist.\<close>

definition cell :: "Board \<Rightarrow> idx \<Rightarrow> idx \<Rightarrow> played" where
  "cell b i j = nth3 (nth3 b i) j"

text \<open>
  \<^verbatim>\<open>board[i][j] = v\<close> on the copy of the board that \<^verbatim>\<open>makeMove\<close> builds with
  \<^verbatim>\<open>map\<close>; the old board is not touched, so the copy is the new value.
\<close>

definition setCell :: "Board \<Rightarrow> idx \<Rightarrow> idx \<Rightarrow> played \<Rightarrow> Board" where
  "setCell b i j v = upd3 b i (upd3 (nth3 b i) j v)"

text \<open>
  Reading a three-element array at a JavaScript number: the keys \<open>0\<close>, \<open>1\<close> and \<open>2\<close>
  name the three positions and every other number reads \<^verbatim>\<open>undefined\<close> (\<open>None\<close>), as
  does the key \<^verbatim>\<open>undefined\<close> itself (\<open>None\<close> on the left). Numbers are modelled as
  integers: a fractional number or \<^verbatim>\<open>NaN\<close> names no position either, like an integer
  outside \<open>0..2\<close>.
\<close>

fun toIdx :: "int option \<Rightarrow> idx option" where
  "toIdx None = None"
| "toIdx (Some n) =
     (if n = 0 then Some I0 else if n = 1 then Some I1 else if n = 2 then Some I2 else None)"

text \<open>
  \<^verbatim>\<open>const [row, col] = move\<close>: a component the array does not have is
  \<^verbatim>\<open>undefined\<close>, further elements are ignored.
\<close>

fun destructure :: "int list \<Rightarrow> int option \<times> int option" where
  "destructure [] = (None, None)"
| "destructure [r] = (Some r, None)"
| "destructure (r # c # rest) = (Some r, Some c)"

definition initialState :: TicTacToeState where
  "initialState =
     \<lparr> board = ((None, None, None), (None, None, None), (None, None, None)),
       currentPlayer = PlayerX, winner = None, mode = PlayerVsAi, isAiThinking = False \<rparr>"

section \<open>\<^verbatim>\<open>checkWinner\<close>\<close>

type_synonym line = "(idx \<times> idx) triple"

definition winningLines :: "line list" where
  "winningLines =
     [ ((I0, I0), (I0, I1), (I0, I2)),
       ((I1, I0), (I1, I1), (I1, I2)),
       ((I2, I0), (I2, I1), (I2, I2)),
       ((I0, I0), (I1, I0), (I2, I0)),
       ((I0, I1), (I1, I1), (I2, I1)),
       ((I0, I2), (I1, I2), (I2, I2)),
       ((I0, I0), (I1, I1), (I2, I2)),
       ((I0, I2), (I1, I1), (I2, I0)) ]"

text \<open>
  The \<^verbatim>\<open>for (const line of winningLines)\<close> loop: the first cell must be truthy (a mark,
  not \<^verbatim>\<open>null\<close>) and strictly equal to the other two; the first such line returns its
  first cell, and the loop falling through returns \<^verbatim>\<open>null\<close>.
\<close>

fun checkLines :: "Board \<Rightarrow> line list \<Rightarrow> Player option" where
  "checkLines b [] = None"
| "checkLines b ((p, q, r) # ls) =
     (if cell b (fst p) (snd p) \<noteq> None
         \<and> cell b (fst p) (snd p) = cell b (fst q) (snd q)
         \<and> cell b (fst p) (snd p) = cell b (fst r) (snd r)
      then cell b (fst p) (snd p)
      else checkLines b ls)"

definition checkWinner :: "Board \<Rightarrow> Player option" where
  "checkWinner b = checkLines b winningLines"

section \<open>\<^verbatim>\<open>makeMove\<close>, \<^verbatim>\<open>clearBoard\<close>, \<^verbatim>\<open>setMode\<close>\<close>

text \<open>
  What \<^verbatim>\<open>makeMove\<close> can throw: its two \<^verbatim>\<open>Error\<close>s, the \<^verbatim>\<open>TypeError\<close> of reading a
  property of \<^verbatim>\<open>undefined\<close> (\<^verbatim>\<open>board[row][col]\<close> when \<^verbatim>\<open>board[row]\<close> is
  \<^verbatim>\<open>undefined\<close>), and whatever \<^verbatim>\<open>generateObject\<close> rejects with.
\<close>

datatype error = NotYourTurn | CellAlreadyPlayed | TypeError | GenerateObjectFailed

text \<open>
  Lines 49 to 66: the two checks and the \<^verbatim>\<open>setState\<close> that commits the move. In
  \<^verbatim>\<open>board[row][col] !== null\<close> a column that names no position reads \<^verbatim>\<open>undefined\<close>,
  which is not \<^verbatim>\<open>null\<close>, so the second \<^verbatim>\<open>Error\<close> is thrown.
\<close>

definition makeMove_apply :: "TicTacToeState \<Rightarrow> int list \<Rightarrow> Player \<Rightarrow> error + TicTacToeState" where
  "makeMove_apply s mv player =
     (if currentPlayer s \<noteq> player then Inl NotYourTurn
      else case destructure mv of (row, col) \<Rightarrow>
        (case toIdx row of
           None \<Rightarrow> Inl TypeError
         | Some i \<Rightarrow>
             (case toIdx col of
                None \<Rightarrow> Inl CellAlreadyPlayed
              | Some j \<Rightarrow>
                  if cell (board s) i j \<noteq> None then Inl CellAlreadyPlayed
                  else let b = setCell (board s) i j (Some player) in
                    Inr (s\<lparr> board := b,
                            currentPlayer := (if player = PlayerX then PlayerO else PlayerX),
                            winner := checkWinner b,
                            isAiThinking := False \<rparr>))))"

text \<open>\<^verbatim>\<open>board.every((row) => row.every((cell) => cell !== null))\<close>\<close>

fun every3 :: "('a \<Rightarrow> bool) \<Rightarrow> 'a triple \<Rightarrow> bool" where
  "every3 P (a, b, c) = (P a \<and> P b \<and> P c)"

definition boardFull :: "Board \<Rightarrow> bool" where
  "boardFull b = every3 (every3 (\<lambda>c. c \<noteq> None)) b"

definition shouldAIPlay :: "TicTacToeState \<Rightarrow> bool" where
  "shouldAIPlay s = (mode s = AiVsAi \<or> (mode s = PlayerVsAi \<and> currentPlayer s = PlayerO))"

text \<open>
  Lines 49 to 91, the part of \<^verbatim>\<open>makeMove\<close> that runs before the \<^verbatim>\<open>await\<close>: the move
  is committed, and the call either returns or sets \<^verbatim>\<open>isAiThinking\<close> and issues the
  request to the model.
\<close>

datatype progress = Returned | AwaitingAi

definition makeMove_begin ::
    "TicTacToeState \<Rightarrow> int list \<Rightarrow> Player \<Rightarrow> error + TicTacToeState \<times> progress" where
  "makeMove_begin s mv player =
     (case makeMove_apply s mv player of
        Inl e \<Rightarrow> Inl e
      | Inr s1 \<Rightarrow>
          if winner s1 \<noteq> None then Inr (s1, Returned)
          else if boardFull (board s1) then Inr (s1, Returned)
          else if shouldAIPlay s1 then Inr (s1\<lparr> isAiThinking := True \<rparr>, AwaitingAi)
          else Inr (s1, Returned))"

text \<open>
  The model call is outside the repository: \<^verbatim>\<open>generateObject\<close> is given the board and
  the side to move, and either rejects or yields an array of numbers of any length
  (\<^verbatim>\<open>z.array(z.number())\<close>). It is a parameter of the model, an arbitrary function of
  what the prompt holds: every request follows a newly committed move, so no two
  requests of a game show the same board and a function can give any sequence of
  responses.
\<close>

datatype ai_response = AiFailure | AiMove "int list"

type_synonym MoveSource = "Board \<Rightarrow> Player \<Rightarrow> ai_response"

text \<open>The number of \<^verbatim>\<open>null\<close> cells, which every committed move lowers.\<close>

fun sum3 :: "('a \<Rightarrow> nat) \<Rightarrow> 'a triple \<Rightarrow> nat" where
  "sum3 f (a, b, c) = f a + f b + f c"

definition empties :: "Board \<Rightarrow> nat" where
  "empties b = sum3 (sum3 (\<lambda>c. if c = None then 1 else 0)) b"

lemma sum3_upd3: "sum3 f (upd3 t i v) + f (nth3 t i) = sum3 f t + f v"
  by (cases t; cases i) simp_all

lemma empties_setCell:
  "cell b i j = None \<Longrightarrow> Suc (empties (setCell b i j (Some p))) = empties b"
proof -
  assume e: "cell b i j = None"
  let ?f = "\<lambda>c::played. if c = None then 1 else (0::nat)"
  have "sum3 ?f (upd3 (nth3 b i) j (Some p)) + ?f (nth3 (nth3 b i) j)
          = sum3 ?f (nth3 b i) + ?f (Some p)"
    by (rule sum3_upd3)
  with e have row: "Suc (sum3 ?f (upd3 (nth3 b i) j (Some p))) = sum3 ?f (nth3 b i)"
    by (simp add: cell_def)
  have "sum3 (sum3 ?f) (upd3 b i (upd3 (nth3 b i) j (Some p))) + sum3 ?f (nth3 b i)
          = sum3 (sum3 ?f) b + sum3 ?f (upd3 (nth3 b i) j (Some p))"
    by (rule sum3_upd3)
  with row show ?thesis
    by (simp add: empties_def setCell_def)
qed

lemma makeMove_apply_empties:
  "makeMove_apply s mv p = Inr s' \<Longrightarrow> Suc (empties (board s')) = empties (board s)"
  by (auto simp: makeMove_apply_def Let_def empties_setCell
           split: if_splits prod.splits option.splits)

lemma makeMove_begin_empties:
  "makeMove_begin s mv p = Inr (s', g) \<Longrightarrow> empties (board s') < empties (board s)"
  by (auto simp: makeMove_begin_def dest!: makeMove_apply_empties
           split: sum.splits if_splits)

text \<open>
  The whole of \<^verbatim>\<open>makeMove\<close> when nothing else runs during the \<^verbatim>\<open>await\<close>: after the
  response the method calls itself with the move of the model and
  \<^verbatim>\<open>this.state.currentPlayer\<close>; the \<^verbatim>\<open>catch\<close> logs and rethrows, so a rejection and
  an error of the inner call both reach the caller. The result is what the call throws
  or that it returned, and the state it leaves.
\<close>

function makeMove ::
    "MoveSource \<Rightarrow> TicTacToeState \<Rightarrow> int list \<Rightarrow> Player \<Rightarrow> (error + unit) \<times> TicTacToeState" where
  "makeMove ai s mv player =
     (case makeMove_begin s mv player of
        Inl e \<Rightarrow> (Inl e, s)
      | Inr (s', Returned) \<Rightarrow> (Inr (), s')
      | Inr (s', AwaitingAi) \<Rightarrow>
          (case ai (board s') (currentPlayer s') of
             AiFailure \<Rightarrow> (Inl GenerateObjectFailed, s')
           | AiMove m \<Rightarrow> makeMove ai s' m (currentPlayer s')))"
  by pat_completeness auto
termination
  by (relation "measure (\<lambda>(ai, s, mv, player). empties (board s))")
     (auto dest: makeMove_begin_empties)

text \<open>
  Lines 123 to 132 on their own: what the suspended call does when the response arrives,
  on the state as it is at that moment (\<^verbatim>\<open>this.state\<close> is read after the
  \<^verbatim>\<open>await\<close>).
\<close>

definition makeMove_resume ::
    "MoveSource \<Rightarrow> TicTacToeState \<Rightarrow> ai_response \<Rightarrow> (error + unit) \<times> TicTacToeState" where
  "makeMove_resume ai s resp =
     (case resp of
        AiFailure \<Rightarrow> (Inl GenerateObjectFailed, s)
      | AiMove m \<Rightarrow> makeMove ai s m (currentPlayer s))"

text \<open>\<^verbatim>\<open>this.setState({ ...this.initialState, mode: this.state.mode })\<close>\<close>

definition clearBoard :: "TicTacToeState \<Rightarrow> TicTacToeState" where
  "clearBoard s = initialState\<lparr> mode := mode s \<rparr>"

text \<open>\<^verbatim>\<open>this.setState({ ...this.state, mode })\<close>\<close>

definition setMode :: "TicTacToeState \<Rightarrow> GameMode \<Rightarrow> TicTacToeState" where
  "setMode s m = s\<lparr> mode := m \<rparr>"

section \<open>Vocabulary of the properties\<close>

text \<open>
  The eight lines as the specification names them: three rows, three columns, the main
  diagonal and the anti-diagonal. A line is complete for a mark when its three cells
  hold that mark.
\<close>

definition rowLine :: "idx \<Rightarrow> line" where
  "rowLine i = ((i, I0), (i, I1), (i, I2))"

definition colLine :: "idx \<Rightarrow> line" where
  "colLine j = ((I0, j), (I1, j), (I2, j))"

definition mainDiagonal :: line where
  "mainDiagonal = ((I0, I0), (I1, I1), (I2, I2))"

definition antiDiagonal :: line where
  "antiDiagonal = ((I0, I2), (I1, I1), (I2, I0))"

fun lineComplete :: "Board \<Rightarrow> line \<Rightarrow> Player \<Rightarrow> bool" where
  "lineComplete b (p, q, r) m =
     (cell b (fst p) (snd p) = Some m \<and> cell b (fst q) (snd q) = Some m
        \<and> cell b (fst r) (snd r) = Some m)"


text \<open>
  The state the \<^verbatim>\<open>setState\<close> of line 60 writes when \<open>p\<close> plays the cell \<open>(i, j)\<close>.
\<close>

definition committed :: "TicTacToeState \<Rightarrow> idx \<Rightarrow> idx \<Rightarrow> Player \<Rightarrow> TicTacToeState" where
  "committed s i j p =
     s\<lparr> board := setCell (board s) i j (Some p),
        currentPlayer := (if p = PlayerX then PlayerO else PlayerX),
        winner := checkWinner (setCell (board s) i j (Some p)),
        isAiThinking := False \<rparr>"

text \<open>A sequence of \<^verbatim>\<open>makeMove\<close> calls, each on the state the one before left.\<close>

fun makeMoves :: "MoveSource \<Rightarrow> TicTacToeState \<Rightarrow> (int list \<times> Player) list \<Rightarrow> TicTacToeState" where
  "makeMoves ai s [] = s"
| "makeMoves ai s ((mv, p) # calls) = makeMoves ai (snd (makeMove ai s mv p)) calls"



text \<open>A model call that always rejects, and one that always answers the same move.\<close>

definition failingAi :: MoveSource where
  "failingAi b p = AiFailure"

definition constantAi :: "int list \<Rightarrow> MoveSource" where
  "constantAi m b p = AiMove m"

text \<open>A state in which \<open>PlayerX\<close> holds the centre and the model is being asked.\<close>

definition centreTaken :: TicTacToeState where
  "centreTaken =
     \<lparr> board = ((None, None, None), (None, Some PlayerX, None), (None, None, None)),
       currentPlayer = PlayerO, winner = None, mode = AiVsAi, isAiThinking = True \<rparr>"

text \<open>The board of \<^verbatim>\<open>initialState\<close>.\<close>

definition emptyBoard :: Board where
  "emptyBoard = ((None, None, None), (None, None, None), (None, None, None))"

text \<open>
  A model call that answers the centre while it is free and the cell right of it
  afterwards: the replies of \<open>PlayerO\<close> in the scenario of the specification.
\<close>

definition scriptedAi :: MoveSource where
  "scriptedAi b p = (if cell b I1 I1 = None then AiMove [1, 1] else AiMove [1, 2])"

text \<open>
  States used as examples: after the first move of \<open>PlayerX\<close> with the request to the
  model open; after the reply in the centre; after \<open>PlayerX\<close> has completed the top
  row; one move before a draw, and the draw.
\<close>

definition cornerTaken :: TicTacToeState where
  "cornerTaken =
     \<lparr> board = ((Some PlayerX, None, None), (None, None, None), (None, None, None)),
       currentPlayer = PlayerO, winner = None, mode = PlayerVsAi, isAiThinking = True \<rparr>"


definition topRowWon :: TicTacToeState where
  "topRowWon =
     \<lparr> board = ((Some PlayerX, Some PlayerX, Some PlayerX),
                (None, Some PlayerO, Some PlayerO),
                (None, None, None)),
       currentPlayer = PlayerO, winner = Some PlayerX, mode = PlayerVsAi,
       isAiThinking = False \<rparr>"





section \<open>Lemmas on cells, lines and single moves\<close>

declare makeMove.simps [simp del]



lemma toIdx_in_range: "0 \<le> n \<Longrightarrow> n \<le> 2 \<Longrightarrow> \<exists>i. toIdx (Some n) = Some i"
  by (cases "n = 0"; cases "n = 1"; cases "n = 2") auto

lemma toIdx_out_of_range: "n < 0 \<or> 2 < n \<Longrightarrow> toIdx (Some n) = None"
  by auto

lemma nth3_upd3: "nth3 (upd3 t i v) k = (if k = i then v else nth3 t k)"
  by (cases t; cases i; cases k) simp_all

lemma cell_setCell:
  "cell (setCell b i j v) i' j' = (if i' = i \<and> j' = j then v else cell b i' j')"
  by (simp add: cell_def setCell_def nth3_upd3)




lemma winningLines_eight:
  "winningLines = [rowLine I0, rowLine I1, rowLine I2, colLine I0, colLine I1, colLine I2,
                   mainDiagonal, antiDiagonal]"
  by (simp add: winningLines_def rowLine_def colLine_def mainDiagonal_def antiDiagonal_def)

lemma checkLines_skip:
  "\<forall>m. \<not> lineComplete b l m \<Longrightarrow> checkLines b (l # ls) = checkLines b ls"
  by (cases l) auto

lemma checkLines_hit:
  "lineComplete b l m \<Longrightarrow> checkLines b (l # ls) = Some m"
  by (cases l) auto

lemma checkLines_first:
  "\<forall>l'\<in>set pre. \<forall>m'. \<not> lineComplete b l' m' \<Longrightarrow> lineComplete b l m
     \<Longrightarrow> checkLines b (pre @ l # post) = Some m"
  by (induction pre) (simp_all add: checkLines_hit checkLines_skip)

lemma checkLines_None:
  "checkLines b ls = None \<longleftrightarrow> (\<forall>l\<in>set ls. \<forall>m. \<not> lineComplete b l m)"
proof (induction ls)
  case Nil
  show ?case by simp
next
  case (Cons l ls)
  show ?case
  proof (cases "\<exists>m. lineComplete b l m")
    case True
    then obtain m where "lineComplete b l m" ..
    then show ?thesis using checkLines_hit [of b l m ls] by auto
  next
    case False
    then show ?thesis using Cons checkLines_skip [of b l ls] by simp
  qed
qed

lemma checkLines_Some:
  "checkLines b ls = Some m \<Longrightarrow> \<exists>l\<in>set ls. lineComplete b l m"
proof (induction ls)
  case Nil
  then show ?case by simp
next
  case (Cons l ls)
  show ?case
  proof (cases "\<exists>m'. lineComplete b l m'")
    case True
    then obtain m' where c: "lineComplete b l m'" ..
    with Cons.prems checkLines_hit [of b l m' ls] have "m' = m" by simp
    with c show ?thesis by auto
  next
    case False
    with Cons checkLines_skip [of b l ls] show ?thesis by simp
  qed
qed

lemma makeMove_apply_Inr_iff:
  "makeMove_apply s mv p = Inr s' \<longleftrightarrow>
     p = currentPlayer s \<and>
     (\<exists>i j. toIdx (fst (destructure mv)) = Some i \<and> toIdx (snd (destructure mv)) = Some j
        \<and> cell (board s) i j = None \<and> s' = committed s i j p)"
  by (auto simp: makeMove_apply_def committed_def Let_def split: prod.splits option.splits)

lemma makeMove_begin_Inl_iff:
  "makeMove_begin s mv p = Inl e \<longleftrightarrow> makeMove_apply s mv p = Inl e"
  by (simp add: makeMove_begin_def split: sum.splits)

lemma makeMove_begin_Inr_iff:
  "makeMove_begin s mv p = Inr (s', g) \<longleftrightarrow>
     (\<exists>s1. makeMove_apply s mv p = Inr s1 \<and>
        (if winner s1 \<noteq> None \<or> boardFull (board s1) \<or> \<not> shouldAIPlay s1
         then s' = s1 \<and> g = Returned
         else s' = s1\<lparr> isAiThinking := True \<rparr> \<and> g = AwaitingAi))"
  by (auto simp: makeMove_begin_def split: sum.splits)

lemma makeMove_begin_board:
  assumes "makeMove_begin s mv p = Inr (s', g)"
  obtains i j where "toIdx (fst (destructure mv)) = Some i"
    and "toIdx (snd (destructure mv)) = Some j"
    and "cell (board s) i j = None"
    and "board s' = setCell (board s) i j (Some p)"
    and "p = currentPlayer s"
    and "currentPlayer s' = (if p = PlayerX then PlayerO else PlayerX)"
    and "winner s' = checkWinner (board s')"
    and "mode s' = mode s"
proof -
  from assms obtain s1 where a: "makeMove_apply s mv p = Inr s1"
    and b: "s' = s1 \<or> s' = s1\<lparr> isAiThinking := True \<rparr>"
    by (auto simp: makeMove_begin_Inr_iff split: if_splits)
  from a obtain i j where "toIdx (fst (destructure mv)) = Some i"
    "toIdx (snd (destructure mv)) = Some j" "cell (board s) i j = None"
    "s1 = committed s i j p" "p = currentPlayer s"
    by (auto simp: makeMove_apply_Inr_iff)
  with b that [of i j] show thesis
    by (auto simp: committed_def)
qed

lemma makeMove_unfold:
  "makeMove ai s mv p =
     (case makeMove_begin s mv p of
        Inl e \<Rightarrow> (Inl e, s)
      | Inr (s', Returned) \<Rightarrow> (Inr (), s')
      | Inr (s', AwaitingAi) \<Rightarrow> makeMove_resume ai s' (ai (board s') (currentPlayer s')))"
  by (subst makeMove.simps)
     (simp add: makeMove_resume_def
           split: sum.splits prod.splits progress.splits ai_response.splits)

section \<open>Lemmas on whole calls\<close>

text \<open>An invariant of single moves is an invariant of whole calls.\<close>

lemma makeMove_invariant:
  assumes "I s"
    and step: "\<And>s mv p s' g. I s \<Longrightarrow> makeMove_begin s mv p = Inr (s', g) \<Longrightarrow> I s'"
  shows "I (snd (makeMove ai s mv p))"
  using assms(1)
proof (induction ai s mv p rule: makeMove.induct)
  case (1 ai s mv p)
  show ?case
  proof (cases "makeMove_begin s mv p")
    case (Inl e)
    with "1.prems" show ?thesis by (simp add: makeMove.simps)
  next
    case (Inr r)
    obtain s' g where r: "r = (s', g)" by (cases r)
    from "1.prems" Inr r have I': "I s'" by (auto intro: step)
    show ?thesis
    proof (cases g)
      case Returned
      with Inr r I' show ?thesis by (simp add: makeMove.simps)
    next
      case AwaitingAi
      show ?thesis
      proof (cases "ai (board s') (currentPlayer s')")
        case AiFailure
        with Inr r AwaitingAi I' show ?thesis by (simp add: makeMove.simps)
      next
        case (AiMove m)
        from "1.IH" [OF Inr r [symmetric] AwaitingAi AiMove I']
        have "I (snd (makeMove ai s' m (currentPlayer s')))" .
        with Inr r AwaitingAi AiMove show ?thesis
          by (subst makeMove.simps) simp
      qed
    qed
  qed
qed


lemma makeMove_keeps_marks:
  assumes "cell (board s) i j \<noteq> None"
  shows "cell (board (snd (makeMove ai s mv p))) i j = cell (board s) i j"
proof -
  let ?I = "\<lambda>t. cell (board t) i j = cell (board s) i j"
  have "?I (snd (makeMove ai s mv p))"
  proof (rule makeMove_invariant [where I = ?I])
    show "?I s" by simp
  next
    fix t mv' p' t' g
    assume t: "?I t" and b: "makeMove_begin t mv' p' = Inr (t', g)"
    from b obtain i' j' where "cell (board t) i' j' = None"
      and "board t' = setCell (board t) i' j' (Some p')"
      by (auto elim: makeMove_begin_board)
    with t assms show "?I t'" by (auto simp: cell_setCell)
  qed
  then show ?thesis .
qed



lemma makeMove_fails:
  "makeMove_apply s mv p = Inl e \<Longrightarrow> makeMove ai s mv p = (Inl e, s)"
  by (simp add: makeMove_unfold makeMove_begin_def)



lemma lineComplete_setCell:
  "lineComplete b l m \<Longrightarrow> cell b i j = None \<Longrightarrow> lineComplete (setCell b i j v) l m"
  by (cases l) (auto simp: cell_setCell)

lemma checkWinner_setCell:
  assumes "checkWinner b \<noteq> None" and "cell b i j = None"
  shows "checkWinner (setCell b i j v) \<noteq> None"
proof -
  from assms(1) obtain l m where "l \<in> set winningLines" "lineComplete b l m"
    by (auto simp: checkWinner_def checkLines_None)
  with assms(2) have "l \<in> set winningLines" "lineComplete (setCell b i j v) l m"
    by (auto intro: lineComplete_setCell)
  then show ?thesis by (auto simp: checkWinner_def checkLines_None)
qed

section \<open>Lemmas for the claims\<close>

lemmas eval_defs = makeMove_unfold makeMove_begin_def makeMove_apply_def initialState_def
  makeMove_resume_def setCell_def cell_def checkWinner_def winningLines_def boardFull_def
  shouldAIPlay_def

text \<open>The result of \<^verbatim>\<open>checkWinner\<close> is the mark of the first complete line.\<close>

lemma checkWinner_first:
  assumes e: "winningLines = pre @ l # post" and c: "lineComplete b l m"
    and f: "\<forall>l'\<in>set pre. \<forall>m'. \<not> lineComplete b l' m'"
  shows "checkWinner b = Some m"
proof -
  from f c have "checkLines b (pre @ l # post) = Some m"
    by (rule checkLines_first)
  then show ?thesis
    unfolding checkWinner_def e .
qed

lemma checkWinner_Some_first:
  assumes w: "checkWinner b = Some m"
  shows "\<exists>pre l post. winningLines = pre @ l # post \<and> lineComplete b l m
            \<and> (\<forall>l'\<in>set pre. \<forall>m'. \<not> lineComplete b l' m')"
proof -
  from w have "checkLines b winningLines = Some m"
    by (simp only: checkWinner_def)
  then have "\<exists>l\<in>set winningLines. lineComplete b l m"
    by (rule checkLines_Some)
  then have "\<exists>l\<in>set winningLines. \<exists>m'. lineComplete b l m'"
    by blast
  then have "\<exists>pre l post. winningLines = pre @ l # post \<and> (\<exists>m'. lineComplete b l m')
                 \<and> (\<forall>l'\<in>set pre. \<not> (\<exists>m'. lineComplete b l' m'))"
    by (rule split_list_first_prop)
  then obtain pre l post where s: "winningLines = pre @ l # post"
    and c: "\<exists>m'. lineComplete b l m'"
    and f: "\<forall>l'\<in>set pre. \<forall>m'. \<not> lineComplete b l' m'"
    by blast
  from c obtain m' where c': "lineComplete b l m'" ..
  with s f have "checkWinner b = Some m'"
    by (intro checkWinner_first)
  with w have "m' = m" by simp
  with s c' f show ?thesis by blast
qed

lemma makeMove_Returned:
  "makeMove_begin s mv p = Inr (s', Returned) \<Longrightarrow> makeMove ai s mv p = (Inr (), s')"
  by (simp add: makeMove_unfold)




lemma checkWinner_one_mark: "checkWinner (setCell emptyBoard i j v) = None"
  by (cases i; cases j)
     (simp_all add: checkWinner_def winningLines_def emptyBoard_def setCell_def cell_def)

lemma boardFull_one_mark: "\<not> boardFull (setCell emptyBoard i j v)"
  by (cases i; cases j) (simp_all add: boardFull_def emptyBoard_def setCell_def)

lemma clearBoard_begin:
  assumes "toIdx (Some r) = Some i" and "toIdx (Some c) = Some j"
  shows "makeMove_begin (clearBoard s) (r # c # rest) PlayerX =
           Inr (clearBoard s \<lparr> board := setCell emptyBoard i j (Some PlayerX),
                               currentPlayer := PlayerO, isAiThinking := True \<rparr>, AwaitingAi)"
proof -
  have e: "board (clearBoard s) = emptyBoard" "currentPlayer (clearBoard s) = PlayerX"
    by (simp_all add: clearBoard_def initialState_def emptyBoard_def)
  have n: "cell emptyBoard i j = None"
    by (cases i; cases j) (simp_all add: emptyBoard_def cell_def)
  from assms e n have "makeMove_apply (clearBoard s) (r # c # rest) PlayerX
      = Inr (committed (clearBoard s) i j PlayerX)"
    by (simp add: makeMove_apply_Inr_iff)
  moreover have "winner (committed (clearBoard s) i j PlayerX) = None"
    "\<not> boardFull (board (committed (clearBoard s) i j PlayerX))"
    "shouldAIPlay (committed (clearBoard s) i j PlayerX)"
    using e by (simp_all add: committed_def checkWinner_one_mark boardFull_one_mark
        shouldAIPlay_def) (cases "mode (clearBoard s)"; simp)
  ultimately show ?thesis
    using e by (simp add: makeMove_begin_def committed_def clearBoard_def initialState_def)
qed

section \<open>The claims\<close>




text \<open>
  C2 does not hold as stated: \<^verbatim>\<open>makeMove\<close> has no check of the winner. After
  \<open>PlayerX\<close> has won with the top row (the scenario of the specification, the replies
  of \<open>PlayerO\<close> coming from the model), \<open>PlayerO\<close> is the side to move and its move
  to an empty cell succeeds and changes the board.
\<close>

theorem makeMove_after_win_counterexample:
  "makeMoves scriptedAi initialState [([0, 0], PlayerX), ([0, 1], PlayerX), ([0, 2], PlayerX)]
     = topRowWon
   \<and> winner topRowWon = Some PlayerX
   \<and> makeMove scriptedAi topRowWon [2, 2] PlayerO =
       (Inr (), topRowWon\<lparr> board := ((Some PlayerX, Some PlayerX, Some PlayerX),
                                        (None, Some PlayerO, Some PlayerO),
                                        (None, None, Some PlayerO)),
                            currentPlayer := PlayerX \<rparr>)"
  by (simp add: eval_defs scriptedAi_def topRowWon_def)

text \<open>
  C2 as amended. Once the state has a winner (the one \<^verbatim>\<open>checkWinner\<close> finds on its
  board, as in every state \<^verbatim>\<open>makeMove\<close> writes), \<^verbatim>\<open>makeMove\<close> fails and leaves the state
  unchanged when the claimed side is not the side to move, or when the target is not an
  empty cell of the grid. A call by the side to move on an empty cell is still applied:
  that one mark is written and the side to move flipped, the state keeps a winner and no
  request is made to the model. \<^verbatim>\<open>clearBoard\<close> returns to the initial state, keeping
  the mode.
\<close>

theorem makeMove_after_win:
  assumes w: "winner s \<noteq> None" and k: "winner s = checkWinner (board s)"
  shows "(p \<noteq> currentPlayer s \<longrightarrow> makeMove ai s mv p = (Inl NotYourTurn, s))
    \<and> ((\<forall>i j. toIdx (fst (destructure mv)) = Some i \<and> toIdx (snd (destructure mv)) = Some j
            \<longrightarrow> cell (board s) i j \<noteq> None)
         \<longrightarrow> (\<exists>e. makeMove ai s mv p = (Inl e, s)))
    \<and> (\<forall>i j. p = currentPlayer s \<and> toIdx (fst (destructure mv)) = Some i
            \<and> toIdx (snd (destructure mv)) = Some j \<and> cell (board s) i j = None
         \<longrightarrow> makeMove ai s mv p = (Inr (), committed s i j p)
             \<and> winner (committed s i j p) \<noteq> None)
    \<and> winner (snd (makeMove ai s mv p)) \<noteq> None
    \<and> clearBoard s = initialState\<lparr> mode := mode s \<rparr>"
proof -
  have a: "p \<noteq> currentPlayer s \<longrightarrow> makeMove ai s mv p = (Inl NotYourTurn, s)"
    by (auto intro!: makeMove_fails simp: makeMove_apply_def)
  have b: "(\<forall>i j. toIdx (fst (destructure mv)) = Some i \<and> toIdx (snd (destructure mv)) = Some j
            \<longrightarrow> cell (board s) i j \<noteq> None)
         \<longrightarrow> (\<exists>e. makeMove ai s mv p = (Inl e, s))"
  proof
    assume o: "\<forall>i j. toIdx (fst (destructure mv)) = Some i \<and> toIdx (snd (destructure mv)) = Some j
            \<longrightarrow> cell (board s) i j \<noteq> None"
    have "\<exists>e. makeMove_apply s mv p = Inl e"
    proof (cases "makeMove_apply s mv p")
      case (Inl e)
      then show ?thesis by blast
    next
      case (Inr s')
      with o show ?thesis by (auto simp: makeMove_apply_Inr_iff)
    qed
    then show "\<exists>e. makeMove ai s mv p = (Inl e, s)" by (blast dest: makeMove_fails)
  qed
  have c: "\<forall>i j. p = currentPlayer s \<and> toIdx (fst (destructure mv)) = Some i
            \<and> toIdx (snd (destructure mv)) = Some j \<and> cell (board s) i j = None
         \<longrightarrow> makeMove ai s mv p = (Inr (), committed s i j p)
             \<and> winner (committed s i j p) \<noteq> None"
  proof (intro allI impI)
    fix i j
    assume h: "p = currentPlayer s \<and> toIdx (fst (destructure mv)) = Some i
            \<and> toIdx (snd (destructure mv)) = Some j \<and> cell (board s) i j = None"
    then have ap: "makeMove_apply s mv p = Inr (committed s i j p)"
      by (auto simp: makeMove_apply_Inr_iff)
    from w k h have wn: "winner (committed s i j p) \<noteq> None"
      by (simp add: committed_def checkWinner_setCell)
    with ap have "makeMove_begin s mv p = Inr (committed s i j p, Returned)"
      by (simp add: makeMove_begin_def)
    then have "makeMove ai s mv p = (Inr (), committed s i j p)" by (rule makeMove_Returned)
    with wn show "makeMove ai s mv p = (Inr (), committed s i j p)
             \<and> winner (committed s i j p) \<noteq> None" by simp
  qed
  have d: "winner (snd (makeMove ai s mv p)) \<noteq> None"
  proof (cases "makeMove_apply s mv p")
    case (Inl e)
    then have "makeMove ai s mv p = (Inl e, s)" by (rule makeMove_fails)
    with w show ?thesis by simp
  next
    case (Inr s')
    then obtain i j where "p = currentPlayer s \<and> toIdx (fst (destructure mv)) = Some i
            \<and> toIdx (snd (destructure mv)) = Some j \<and> cell (board s) i j = None"
      by (auto simp: makeMove_apply_Inr_iff)
    with c have "makeMove ai s mv p = (Inr (), committed s i j p)
             \<and> winner (committed s i j p) \<noteq> None" by blast
    then show ?thesis by simp
  qed
  have e: "clearBoard s = initialState\<lparr> mode := mode s \<rparr>" by (simp add: clearBoard_def)
  from a b c d e show ?thesis by (intro conjI)
qed

theorem makeMove_after_win_witness:
  "winner topRowWon \<noteq> None \<and> winner topRowWon = checkWinner (board topRowWon)
   \<and> makeMove scriptedAi topRowWon [2, 2] PlayerX = (Inl NotYourTurn, topRowWon)
   \<and> (\<exists>e. makeMove scriptedAi topRowWon [2, 3] PlayerO = (Inl e, topRowWon))
   \<and> makeMove scriptedAi topRowWon [2, 2] PlayerO = (Inr (), committed topRowWon I2 I2 PlayerO)
   \<and> winner (committed topRowWon I2 I2 PlayerO) \<noteq> None
   \<and> clearBoard topRowWon = initialState"
proof -
  have w: "winner topRowWon \<noteq> None" by (simp add: topRowWon_def)
  have k: "winner topRowWon = checkWinner (board topRowWon)"
    by (simp add: topRowWon_def checkWinner_def winningLines_def cell_def)
  have x: "PlayerX \<noteq> currentPlayer topRowWon" by (simp add: topRowWon_def)
  have o: "PlayerO = currentPlayer topRowWon \<and> toIdx (fst (destructure [2, 2])) = Some I2
            \<and> toIdx (snd (destructure [2, 2])) = Some I2 \<and> cell (board topRowWon) I2 I2 = None"
    by (simp add: topRowWon_def cell_def)
  have r: "\<forall>i j. toIdx (fst (destructure [2, 3])) = Some i \<and> toIdx (snd (destructure [2, 3])) = Some j
            \<longrightarrow> cell (board topRowWon) i j \<noteq> None"
    by simp
  have m: "initialState\<lparr> mode := mode topRowWon \<rparr> = initialState"
    by (simp add: topRowWon_def initialState_def)
  from makeMove_after_win [OF w k, of PlayerX scriptedAi "[2, 2]"] x
  have 1: "makeMove scriptedAi topRowWon [2, 2] PlayerX = (Inl NotYourTurn, topRowWon)"
    by blast
  from makeMove_after_win [OF w k, of PlayerO scriptedAi "[2, 3]"] r
  have 2: "\<exists>e. makeMove scriptedAi topRowWon [2, 3] PlayerO = (Inl e, topRowWon)"
    by blast
  from makeMove_after_win [OF w k, of PlayerO scriptedAi "[2, 2]"] o
  have 3: "makeMove scriptedAi topRowWon [2, 2] PlayerO = (Inr (), committed topRowWon I2 I2 PlayerO)
    \<and> winner (committed topRowWon I2 I2 PlayerO) \<noteq> None"
    by blast
  from makeMove_after_win [OF w k, of PlayerO scriptedAi "[2, 2]"] m
  have 4: "clearBoard topRowWon = initialState" by simp
  from w k 1 2 3 4 show ?thesis by (intro conjI) simp_all
qed

text \<open>
  C3. For every state and every coordinate of the grid, \<^verbatim>\<open>makeMove\<close> with a claimed
  side that is not the side to move throws "It's not your turn" and leaves the whole
  state (board, side to move, winner, mode, thinking flag) as it was.
\<close>

theorem makeMove_wrong_turn:
  "0 \<le> r \<Longrightarrow> r \<le> 2 \<Longrightarrow> 0 \<le> c \<Longrightarrow> c \<le> 2 \<Longrightarrow> player \<noteq> currentPlayer s
     \<Longrightarrow> makeMove ai s [r, c] player = (Inl NotYourTurn, s)"
  by (rule makeMove_fails) (simp add: makeMove_apply_def)

theorem makeMove_wrong_turn_witness:
  "(0::int) \<le> 1 \<and> (1::int) \<le> 2 \<and> PlayerO \<noteq> currentPlayer initialState
   \<and> makeMove failingAi initialState [1, 1] PlayerO = (Inl NotYourTurn, initialState)"
proof -
  have p: "PlayerO \<noteq> currentPlayer initialState" by (simp add: initialState_def)
  from makeMove_wrong_turn [of 1 1 PlayerO initialState failingAi] p
  have "makeMove failingAi initialState [1, 1] PlayerO = (Inl NotYourTurn, initialState)"
    by simp
  with p show ?thesis by simp
qed

text \<open>
  C4. For every state and every coordinate of the grid whose cell is not empty,
  \<^verbatim>\<open>makeMove\<close> by the side to move throws "Cell already played" and leaves the whole
  state as it was.
\<close>

theorem makeMove_cell_occupied:
  "toIdx (Some r) = Some i \<Longrightarrow> toIdx (Some c) = Some j \<Longrightarrow> cell (board s) i j \<noteq> None
     \<Longrightarrow> makeMove ai s [r, c] (currentPlayer s) = (Inl CellAlreadyPlayed, s)"
  by (rule makeMove_fails) (simp add: makeMove_apply_def)

theorem makeMove_cell_occupied_witness:
  "toIdx (Some 1) = Some I1 \<and> cell (board centreTaken) I1 I1 \<noteq> None
   \<and> makeMove failingAi centreTaken [1, 1] PlayerO = (Inl CellAlreadyPlayed, centreTaken)"
proof -
  have c: "cell (board centreTaken) I1 I1 \<noteq> None" by (simp add: centreTaken_def cell_def)
  have t: "toIdx (Some 1) = Some I1" by simp
  from makeMove_cell_occupied [OF t t c, of failingAi]
  have "makeMove failingAi centreTaken [1, 1] PlayerO = (Inl CellAlreadyPlayed, centreTaken)"
    by (simp add: centreTaken_def)
  with c t show ?thesis by simp
qed

text \<open>
  C5 does not hold as stated: there is no out-of-range error. A column outside the grid
  reads \<^verbatim>\<open>undefined\<close>, which is not \<^verbatim>\<open>null\<close>, so the call throws "Cell already played",
  the error of an occupied cell; a row outside the grid makes \<^verbatim>\<open>board[row][col]\<close>
  throw a \<^verbatim>\<open>TypeError\<close>.
\<close>

theorem makeMove_out_of_range_counterexample:
  "makeMove failingAi initialState [0, 3] PlayerX = (Inl CellAlreadyPlayed, initialState)
   \<and> makeMove failingAi initialState [3, 0] PlayerX = (Inl TypeError, initialState)"
  by (simp add: makeMove_unfold makeMove_begin_def makeMove_apply_def initialState_def)

text \<open>
  C5 as amended. For every state, \<^verbatim>\<open>makeMove\<close> with a coordinate whose row or column
  lies outside \<open>0..2\<close> fails and leaves the state unchanged. The failure is "It's not
  your turn" when the claimed side is not the side to move; otherwise a \<^verbatim>\<open>TypeError\<close>
  when the row is outside the grid, and "Cell already played" when the row is inside and
  the column outside.
\<close>

theorem makeMove_out_of_range:
  assumes "r < 0 \<or> 2 < r \<or> c < 0 \<or> 2 < c"
  shows "makeMove ai s [r, c] player =
           (Inl (if player \<noteq> currentPlayer s then NotYourTurn
                 else if r < 0 \<or> 2 < r then TypeError
                 else CellAlreadyPlayed), s)"
proof (rule makeMove_fails)
  show "makeMove_apply s [r, c] player =
          Inl (if player \<noteq> currentPlayer s then NotYourTurn
               else if r < 0 \<or> 2 < r then TypeError
               else CellAlreadyPlayed)"
  proof (cases "r < 0 \<or> 2 < r")
    case True
    then have "toIdx (Some r) = None" by (rule toIdx_out_of_range)
    with True show ?thesis by (simp add: makeMove_apply_def)
  next
    case False
    then obtain i where i: "toIdx (Some r) = Some i"
      using toIdx_in_range [of r] by auto
    from False assms have "toIdx (Some c) = None" by (intro toIdx_out_of_range) simp
    with i False show ?thesis by (simp add: makeMove_apply_def)
  qed
qed

theorem makeMove_out_of_range_witness:
  "makeMove failingAi cornerTaken [1, -1] PlayerO = (Inl CellAlreadyPlayed, cornerTaken)
   \<and> makeMove failingAi cornerTaken [5, 1] PlayerO = (Inl TypeError, cornerTaken)
   \<and> makeMove failingAi cornerTaken [5, 1] PlayerX = (Inl NotYourTurn, cornerTaken)"
  using makeMove_out_of_range [of 1 "-1" failingAi cornerTaken PlayerO]
    makeMove_out_of_range [of 5 1 failingAi cornerTaken PlayerO]
    makeMove_out_of_range [of 5 1 failingAi cornerTaken PlayerX]
  by (simp add: cornerTaken_def)



text \<open>
  C7, at the input where the code departs from it: on the initial state \<open>PlayerX\<close>
  plays the corner and the request to the model fails. The failure reaches the caller,
  the board holds the one move of \<open>PlayerX\<close>, \<open>PlayerO\<close> is still to move and there
  is no winner; but \<^verbatim>\<open>isAiThinking\<close>, set before the request, is still set: the
  \<^verbatim>\<open>catch\<close> rethrows without clearing it.
\<close>

theorem makeMove_ai_failure_leaves_thinking:
  "makeMove failingAi initialState [0, 0] PlayerX = (Inl GenerateObjectFailed, cornerTaken)
   \<and> isAiThinking cornerTaken
   \<and> board cornerTaken = setCell (board initialState) I0 I0 (Some PlayerX)
   \<and> currentPlayer cornerTaken = PlayerO \<and> winner cornerTaken = None
   \<and> \<not> boardFull (board cornerTaken)"
  by (simp add: makeMove_unfold makeMove_begin_def makeMove_apply_def initialState_def
        cornerTaken_def makeMove_resume_def failingAi_def setCell_def cell_def
        checkWinner_def winningLines_def boardFull_def shouldAIPlay_def)

text \<open>
  C8 does not hold as stated: \<^verbatim>\<open>clearBoard\<close> takes no argument and always keeps the
  mode, so after \<^verbatim>\<open>setMode("ai-vs-ai")\<close> no reset yields the default mode
  \<^verbatim>\<open>"player-vs-ai"\<close> of \<^verbatim>\<open>initialState\<close>.
\<close>

theorem clearBoard_keeps_mode_counterexample:
  "clearBoard (setMode initialState AiVsAi) = initialState\<lparr> mode := AiVsAi \<rparr>
   \<and> mode (clearBoard (setMode initialState AiVsAi)) \<noteq> mode initialState"
  by (simp add: clearBoard_def setMode_def initialState_def)

text \<open>
  C8 as amended. \<^verbatim>\<open>clearBoard\<close> after \<^verbatim>\<open>setMode(m)\<close> yields the initial state (nine
  empty cells, \<open>PlayerX\<close> to move, no winner, thinking flag off) with the mode \<open>m\<close>
  carried over, and \<^verbatim>\<open>clearBoard\<close> always carries the current mode over; the result has
  the default mode only when that was the mode set.
\<close>

theorem clearBoard_after_setMode:
  "clearBoard (setMode s m) =
     \<lparr> board = ((None, None, None), (None, None, None), (None, None, None)),
       currentPlayer = PlayerX, winner = None, mode = m, isAiThinking = False \<rparr>
   \<and> clearBoard s =
     \<lparr> board = ((None, None, None), (None, None, None), (None, None, None)),
       currentPlayer = PlayerX, winner = None, mode = mode s, isAiThinking = False \<rparr>
   \<and> (clearBoard (setMode s m) = initialState \<longleftrightarrow> m = PlayerVsAi)"
  by (auto simp: clearBoard_def setMode_def initialState_def)

text \<open>
  C9 does not hold as stated: nothing marks a request as belonging to a game. \<open>PlayerX\<close>
  plays the corner, the request for the reply of \<open>PlayerO\<close> is open and the thinking
  flag set; \<^verbatim>\<open>clearBoard\<close> empties the board; the response \<open>[1, 1]\<close> then arrives and the
  suspended call applies it to the new board, as a move of \<open>PlayerX\<close>.
\<close>

theorem stale_response_counterexample:
  "makeMove_begin initialState [0, 0] PlayerX = Inr (cornerTaken, AwaitingAi)
   \<and> isAiThinking cornerTaken
   \<and> board (clearBoard cornerTaken) = emptyBoard
   \<and> board (snd (makeMove_resume failingAi (clearBoard cornerTaken) (AiMove [1, 1])))
       = ((None, None, None), (None, Some PlayerX, None), (None, None, None))"
  by (simp add: makeMove_unfold makeMove_begin_def makeMove_apply_def initialState_def
        cornerTaken_def makeMove_resume_def failingAi_def setCell_def cell_def
        checkWinner_def winningLines_def boardFull_def shouldAIPlay_def clearBoard_def
        emptyBoard_def)

text \<open>
  C9 as amended. \<^verbatim>\<open>clearBoard\<close> issued while the thinking flag is set yields the initial
  state with the mode kept. A response that arrives afterwards is not discarded: the
  suspended call passes it to \<^verbatim>\<open>makeMove\<close> with the side to move of the new game,
  \<open>PlayerX\<close>. A response naming a cell of the grid is therefore written to the new
  board as a mark of \<open>PlayerX\<close> (and a reply of \<open>PlayerO\<close> is requested); a failed
  request or a response outside the grid leaves the new state unchanged.
\<close>

theorem stale_response_after_clearBoard:
  "clearBoard s = initialState\<lparr> mode := mode s \<rparr>
   \<and> makeMove_resume ai (clearBoard s) AiFailure = (Inl GenerateObjectFailed, clearBoard s)
   \<and> makeMove_resume ai (clearBoard s) (AiMove m) = makeMove ai (clearBoard s) m PlayerX
   \<and> (\<forall>r c rest i j. m = r # c # rest \<and> toIdx (Some r) = Some i \<and> toIdx (Some c) = Some j \<longrightarrow>
         makeMove_begin (clearBoard s) m PlayerX =
           Inr (clearBoard s \<lparr> board := setCell emptyBoard i j (Some PlayerX),
                               currentPlayer := PlayerO, isAiThinking := True \<rparr>, AwaitingAi)
         \<and> cell (board (snd (makeMove_resume ai (clearBoard s) (AiMove m)))) i j = Some PlayerX)
   \<and> (toIdx (fst (destructure m)) = None \<or> toIdx (snd (destructure m)) = None \<longrightarrow>
         snd (makeMove_resume ai (clearBoard s) (AiMove m)) = clearBoard s)"
proof (intro conjI allI impI)
  show "clearBoard s = initialState\<lparr> mode := mode s \<rparr>" by (simp add: clearBoard_def)
  show "makeMove_resume ai (clearBoard s) AiFailure = (Inl GenerateObjectFailed, clearBoard s)"
    by (simp add: makeMove_resume_def)
  show r: "makeMove_resume ai (clearBoard s) (AiMove m) = makeMove ai (clearBoard s) m PlayerX"
    by (simp add: makeMove_resume_def clearBoard_def initialState_def)
  {
    fix r c rest i j
    assume a: "m = r # c # rest \<and> toIdx (Some r) = Some i \<and> toIdx (Some c) = Some j"
    let ?t = "clearBoard s \<lparr> board := setCell emptyBoard i j (Some PlayerX),
                               currentPlayer := PlayerO, isAiThinking := True \<rparr>"
    from a show b: "makeMove_begin (clearBoard s) m PlayerX = Inr (?t, AwaitingAi)"
      by (simp add: clearBoard_begin)
    have "cell (board ?t) i j \<noteq> None" by (simp add: cell_setCell)
    then have "cell (board (snd (makeMove_resume ai ?t (ai (board ?t) (currentPlayer ?t))))) i j
                 = cell (board ?t) i j"
      by (cases "ai (board ?t) (currentPlayer ?t)")
         (simp_all add: makeMove_resume_def makeMove_keeps_marks)
    with b show "cell (board (snd (makeMove_resume ai (clearBoard s) (AiMove m)))) i j = Some PlayerX"
      by (simp add: r makeMove_unfold [of ai "clearBoard s"] cell_setCell)
  }
  assume "toIdx (fst (destructure m)) = None \<or> toIdx (snd (destructure m)) = None"
  then have "\<exists>e. makeMove_apply (clearBoard s) m PlayerX = Inl e"
    by (cases "makeMove_apply (clearBoard s) m PlayerX") (auto simp: makeMove_apply_Inr_iff)
  then obtain e where "makeMove_apply (clearBoard s) m PlayerX = Inl e" ..
  then have "makeMove ai (clearBoard s) m PlayerX = (Inl e, clearBoard s)"
    by (rule makeMove_fails)
  then show "snd (makeMove_resume ai (clearBoard s) (AiMove m)) = clearBoard s"
    by (simp add: r)
qed

theorem stale_response_after_clearBoard_witness:
  "toIdx (Some 2) = Some I2 \<and> toIdx (Some 0) = Some I0
   \<and> cell (board (snd (makeMove_resume (constantAi [1, 1]) (clearBoard centreTaken)
                         (AiMove [2, 0])))) I2 I0 = Some PlayerX
   \<and> toIdx (fst (destructure [3, 0])) = None
   \<and> snd (makeMove_resume (constantAi [1, 1]) (clearBoard centreTaken) (AiMove [3, 0]))
       = clearBoard centreTaken"
proof -
  have i: "toIdx (Some 2) = Some I2" "toIdx (Some 0) = Some I0" by simp_all
  have o: "toIdx (fst (destructure [3, 0])) = None" by simp
  from stale_response_after_clearBoard [of centreTaken "constantAi [1, 1]" "[2, 0]"] i
  have a: "cell (board (snd (makeMove_resume (constantAi [1, 1]) (clearBoard centreTaken)
                         (AiMove [2, 0])))) I2 I0 = Some PlayerX"
    by blast
  from stale_response_after_clearBoard [of centreTaken "constantAi [1, 1]" "[3, 0]"] o
  have b: "snd (makeMove_resume (constantAi [1, 1]) (clearBoard centreTaken) (AiMove [3, 0]))
       = clearBoard centreTaken"
    by blast
  from i o a b show ?thesis by (intro conjI)
qed

text \<open>
  C10. \<^verbatim>\<open>checkWinner\<close> is a function of the board alone, defined on every board. It goes
  through the eight lines in the order rows 0 to 2, columns 0 to 2, main diagonal,
  anti-diagonal, and returns the mark of the first complete line, whatever later lines
  hold (so on a board with complete lines of both marks, the mark of the earlier line);
  it returns \<^verbatim>\<open>null\<close> exactly when no line is complete.
\<close>

theorem checkWinner_first_complete_line:
  "winningLines = [rowLine I0, rowLine I1, rowLine I2, colLine I0, colLine I1, colLine I2,
                   mainDiagonal, antiDiagonal]
   \<and> (\<forall>pre l post m.
         winningLines = pre @ l # post \<and> lineComplete b l m
           \<and> (\<forall>l'\<in>set pre. \<forall>m'. \<not> lineComplete b l' m')
         \<longrightarrow> checkWinner b = Some m)
   \<and> (\<forall>m. checkWinner b = Some m \<longrightarrow>
         (\<exists>pre l post. winningLines = pre @ l # post \<and> lineComplete b l m
            \<and> (\<forall>l'\<in>set pre. \<forall>m'. \<not> lineComplete b l' m')))
   \<and> (checkWinner b = None \<longleftrightarrow> (\<forall>l\<in>set winningLines. \<forall>m. \<not> lineComplete b l m))"
proof (intro conjI allI impI)
  show "winningLines = [rowLine I0, rowLine I1, rowLine I2, colLine I0, colLine I1, colLine I2,
                   mainDiagonal, antiDiagonal]"
    by (rule winningLines_eight)
next
  fix pre l post m
  assume "winningLines = pre @ l # post \<and> lineComplete b l m
           \<and> (\<forall>l'\<in>set pre. \<forall>m'. \<not> lineComplete b l' m')"
  then show "checkWinner b = Some m"
    by (blast intro: checkWinner_first)
next
  fix m
  assume "checkWinner b = Some m"
  then show "\<exists>pre l post. winningLines = pre @ l # post \<and> lineComplete b l m
            \<and> (\<forall>l'\<in>set pre. \<forall>m'. \<not> lineComplete b l' m')"
    by (rule checkWinner_Some_first)
next
  show "checkWinner b = None \<longleftrightarrow> (\<forall>l\<in>set winningLines. \<forall>m. \<not> lineComplete b l m)"
    by (simp add: checkWinner_def checkLines_None)
qed

theorem checkWinner_first_complete_line_witness:
  "lineComplete ((Some PlayerO, Some PlayerX, None), (Some PlayerO, Some PlayerX, None),
                 (Some PlayerO, Some PlayerX, None)) (colLine I0) PlayerO
   \<and> lineComplete ((Some PlayerO, Some PlayerX, None), (Some PlayerO, Some PlayerX, None),
                 (Some PlayerO, Some PlayerX, None)) (colLine I1) PlayerX
   \<and> checkWinner ((Some PlayerO, Some PlayerX, None), (Some PlayerO, Some PlayerX, None),
                 (Some PlayerO, Some PlayerX, None)) = Some PlayerO"
proof -
  let ?b = "((Some PlayerO, Some PlayerX, None), (Some PlayerO, Some PlayerX, None),
             (Some PlayerO, Some PlayerX, None))"
  have c0: "lineComplete ?b (colLine I0) PlayerO"
    by (simp add: colLine_def cell_def)
  have c1: "lineComplete ?b (colLine I1) PlayerX"
    by (simp add: colLine_def cell_def)
  have rows: "\<forall>l'\<in>set [rowLine I0, rowLine I1, rowLine I2]. \<forall>m'. \<not> lineComplete ?b l' m'"
    by (simp add: rowLine_def cell_def)
  have split: "winningLines = [rowLine I0, rowLine I1, rowLine I2] @ colLine I0
                 # [colLine I1, colLine I2, mainDiagonal, antiDiagonal]"
    by (simp add: winningLines_eight)
  from checkWinner_first_complete_line [of ?b] split c0 rows
  have "checkWinner ?b = Some PlayerO" by blast
  with c0 c1 show ?thesis by simp
qed

end
